theory Spec2Isabelle
  imports Main
begin

section \<open>The session server of \<open>websocket_server.js\<close>\<close>

text \<open>
  The server keeps one client-state object per WebSocket in the Map \<open>clients\<close>, moves
  the client's position on every accepted command, persists each move, and closes the
  session when an inactivity timer fires. The model is a shallow embedding with explicit
  state: the Map, the objects it points to, the pending timers, the handlers suspended
  at \<open>await insertOne\<close>, and the trace of calls made to the outside (socket sends,
  logger calls, database inserts).

  Conventions of the model.
  \<^item> JavaScript numbers hold the grid coordinates; they are exact integers as long as
    their magnitude stays below \<open>2^53\<close>, and the model uses \<open>int\<close>.
  \<^item> \<open>Date.now()\<close>, \<open>new Date()\<close> and \<open>uuidv4()\<close> are inputs of the handlers.
  \<^item> \<open>JSON.parse\<close> is a library function: a handler receives its outcome, a parse
    failure or the parsed value.
  \<^item> \<open>ws.send\<close> may throw. The parameter \<open>throws\<close> says, for the number of calls
    recorded in the trace so far, whether the send issued at that moment throws.
  \<^item> An \<open>async\<close> handler runs up to its \<open>await\<close> in one step and resumes in a later
    step, when the awaited promise has settled; other handlers may run in between.
  \<^item> Time is not measured: a pending timer may fire at any step. The delay
    \<open>INACTIVITY_TIMEOUT\<close> only decides which of these orders a real clock allows.
  \<^item> The start of the process is reduced to the assignment of \<open>movementsCollection\<close>
    by \<open>connectDB\<close>; the exits of the process (a failed database connection,
    \<open>SIGINT\<close>) end every run and are left out.
\<close>

subsection \<open>Values\<close>

type_synonym conn = nat
type_synonym ref = nat
type_synonym timer = nat
type_synonym date = int

text \<open>A position object \<open>{x, y}\<close>; the fields are named \<open>px\<close> and \<open>py\<close>.\<close>

record position =
  px :: int
  py :: int

text \<open>The template string \<open>G_${now}_${cId.substring(0, 4)}\<close>: never empty, so truthy.\<close>

datatype game_id = GameId date string

record client_state =
  clientId :: string
  currentGameId :: "game_id option"
  startPosition :: "position option"
  currentPosition :: position
  lastPosition :: "position option"
  lastMoveTime :: "date option"
  inactivityTimer :: "timer option"
  gameStartTime :: "date option"

text \<open>
  The distance reported by \<open>gameOver\<close> is \<open>Math.sqrt(r).toFixed(2)\<close> for an integer
  radicand \<open>r\<close>; the model keeps the radicand.
\<close>

datatype distance = Sqrt int

datatype error_text = UnknownCommand string | ProcessingFailed

datatype out_msg =
    InitialState int int
  | GameOver game_id distance "date option" date
  | PositionUpdate int int
  | ErrorReply error_text

text \<open>The document \<open>movementData\<close>: gameId, clientId, command, x, y, timestamp.\<close>

datatype movement = Movement "game_id option" string string int int date

datatype level = Info | Warn | Error

text \<open>One constructor per logger call of the source, in source order.\<close>

datatype log_event =
    DbConnected
  | NewClient
  | InitialStateSendFailed
  | GameEndedByInactivity
  | GameEndedRightAfterStart
  | GameEndedWithoutStart
  | GameOverSendFailed
  | ResetSendFailed
  | UnregisteredMessage
  | CommandReceived
  | NewGame
  | UnrecognisedCommand
  | CommandErrorSendFailed
  | CollectionNotInitialised
  | InsertFailed
  | PositionSent
  | PositionSendFailed
  | InactivityDetected
  | ProcessingError
  | GeneralErrorSendFailed
  | ClientDisconnected
  | UnregisteredDisconnected
  | SocketFailure

datatype action =
    Send conn out_msg
  | Log level log_event
  | InsertOne movement

text \<open>The outcome of \<open>JSON.parse(message.toString())\<close>.\<close>

datatype json =
    JNull
  | JBool bool
  | JNumber int
  | JString string
  | JArray "json list"
  | JObject "(string \<times> json) list"

datatype inbound = Unparseable | Parsed json

subsection \<open>State\<close>

text \<open>
  What a message handler still holds when it is suspended at \<open>await insertOne\<close>:
  the socket, the reference to its client-state object, and \<open>newPosition\<close>.
\<close>

record continuation =
  k_ws :: conn
  k_clientState :: ref
  k_newPosition :: position

record world =
  clients :: "conn \<rightharpoonup> ref"
  heap :: "ref \<Rightarrow> client_state"
  next_ref :: ref
  timers :: "timer \<rightharpoonup> conn"
  next_timer :: timer
  movementsCollection :: bool
  suspended :: "nat \<rightharpoonup> continuation"
  next_task :: nat
  trace :: "action list"

definition new_client :: "string \<Rightarrow> client_state" where
  "new_client cid =
     \<lparr>clientId = cid, currentGameId = None, startPosition = None,
      currentPosition = \<lparr>px = 0, py = 0\<rparr>, lastPosition = None, lastMoveTime = None,
      inactivityTimer = None, gameStartTime = None\<rparr>"

definition initial_world :: world where
  "initial_world =
     \<lparr>clients = Map.empty, heap = (\<lambda>r. new_client []), next_ref = 0,
      timers = Map.empty, next_timer = 0, movementsCollection = False,
      suspended = Map.empty, next_task = 0, trace = []\<rparr>"

subsection \<open>The runtime: logger, socket, timers\<close>

definition logger :: "level \<Rightarrow> log_event \<Rightarrow> world \<Rightarrow> world" where
  "logger l e w = w\<lparr>trace := trace w @ [Log l e]\<rparr>"

text \<open>\<open>ws.send\<close>: the call is recorded; the result is \<open>True\<close> when it returned normally.\<close>

definition ws_send :: "(nat \<Rightarrow> bool) \<Rightarrow> conn \<Rightarrow> out_msg \<Rightarrow> world \<Rightarrow> bool \<times> world" where
  "ws_send throws ws m w =
     (\<not> throws (length (trace w)), w\<lparr>trace := trace w @ [Send ws m]\<rparr>)"

text \<open>\<open>clearTimeout\<close> of \<open>null\<close>, or of a timer that fired or was cleared, does nothing.\<close>

definition clearTimeout :: "timer option \<Rightarrow> world \<Rightarrow> world" where
  "clearTimeout t w =
     (case t of None \<Rightarrow> w | Some h \<Rightarrow> w\<lparr>timers := (timers w)(h := None)\<rparr>)"

text \<open>\<open>setTimeout(() => { ...; endGame(ws) }, INACTIVITY_TIMEOUT)\<close> returns a fresh handle.\<close>

definition setTimeout :: "conn \<Rightarrow> world \<Rightarrow> timer \<times> world" where
  "setTimeout ws w =
     (next_timer w,
      w\<lparr>timers := (timers w)(next_timer w \<mapsto> ws), next_timer := next_timer w + 1\<rparr>)"

subsection \<open>\<open>connectDB\<close> and the connection handler\<close>

definition connectDB :: "world \<Rightarrow> world" where
  "connectDB w = logger Info DbConnected (w\<lparr>movementsCollection := True\<rparr>)"

definition on_connection :: "(nat \<Rightarrow> bool) \<Rightarrow> conn \<Rightarrow> string \<Rightarrow> world \<Rightarrow> world" where
  "on_connection throws ws cid w =
     (let w1 = logger Info NewClient w;
          r = next_ref w1;
          w2 = w1\<lparr>clients := (clients w1)(ws \<mapsto> r),
                  heap := (heap w1)(r := new_client cid),
                  next_ref := r + 1\<rparr>;
          initialState = heap w2 r;
          (ok, w3) = ws_send throws ws
                       (InitialState (px (currentPosition initialState))
                                     (py (currentPosition initialState))) w2
      in if ok then w3 else logger Error InitialStateSendFailed w3)"

subsection \<open>\<open>endGame\<close>\<close>

text \<open>The three branches that compute \<open>distance\<close> and log (source lines 81 to 93).\<close>

definition game_distance :: "client_state \<Rightarrow> distance \<times> level \<times> log_event" where
  "game_distance cs =
     (case startPosition cs of
        None \<Rightarrow> (Sqrt 0, Warn, GameEndedWithoutStart)
      | Some s \<Rightarrow>
          (case lastPosition cs of
             None \<Rightarrow> (Sqrt 0, Info, GameEndedRightAfterStart)
           | Some l \<Rightarrow>
               (Sqrt ((px l - px s)\<^sup>2 + (py l - py s)\<^sup>2), Info, GameEndedByInactivity)))"

text \<open>Lines 79 to 105: cancel the timer, compute the distance, send \<open>gameOver\<close>.\<close>

definition endGame_report ::
  "(nat \<Rightarrow> bool) \<Rightarrow> date \<Rightarrow> conn \<Rightarrow> ref \<Rightarrow> game_id \<Rightarrow> world \<Rightarrow> world" where
  "endGame_report throws endTime wsClient r gid w =
     (let clientState = heap w r;
          w1 = clearTimeout (inactivityTimer clientState) w;
          (d, lv, ev) = game_distance clientState;
          w2 = logger lv ev w1;
          (ok, w3) = ws_send throws wsClient
                       (GameOver gid d (gameStartTime clientState) endTime) w2
      in if ok then w3 else logger Error GameOverSendFailed w3)"

text \<open>Lines 107 to 123: clear the session fields, send the reset position.\<close>

definition endGame_reset :: "(nat \<Rightarrow> bool) \<Rightarrow> conn \<Rightarrow> ref \<Rightarrow> world \<Rightarrow> world" where
  "endGame_reset throws wsClient r w =
     (let w1 = w\<lparr>heap := (heap w)(r := (heap w r)
                  \<lparr>currentGameId := None, startPosition := None, lastPosition := None,
                   currentPosition := \<lparr>px = 0, py = 0\<rparr>, lastMoveTime := None,
                   inactivityTimer := None, gameStartTime := None\<rparr>)\<rparr>;
          (ok, w2) = ws_send throws wsClient
                       (PositionUpdate (px (currentPosition (heap w1 r)))
                                       (py (currentPosition (heap w1 r)))) w1
      in if ok then w2 else logger Error ResetSendFailed w2)"

definition endGame :: "(nat \<Rightarrow> bool) \<Rightarrow> date \<Rightarrow> conn \<Rightarrow> world \<Rightarrow> world" where
  "endGame throws endTime wsClient w =
     (case clients w wsClient of
        None \<Rightarrow> w
      | Some r \<Rightarrow>
          (case currentGameId (heap w r) of
             None \<Rightarrow> w
           | Some gid \<Rightarrow>
               endGame_reset throws wsClient r
                 (endGame_report throws endTime wsClient r gid w)))"

text \<open>The callback given to \<open>setTimeout\<close>: a pending timer fires once.\<close>

definition inactivity_timeout :: "(nat \<Rightarrow> bool) \<Rightarrow> date \<Rightarrow> timer \<Rightarrow> world \<Rightarrow> world" where
  "inactivity_timeout throws endTime t w =
     (case timers w t of
        None \<Rightarrow> w
      | Some ws \<Rightarrow>
          endGame throws endTime ws
            (logger Warn InactivityDetected (w\<lparr>timers := (timers w)(t := None)\<rparr>)))"

subsection \<open>The message handler\<close>

text \<open>
  Lines 135 to 140. \<open>None\<close> is the exception caught at line 216: \<open>JSON.parse\<close> threw,
  the parsed value is \<open>null\<close> (reading \<open>.command\<close> throws), or \<open>data.command\<close> is not
  a string. \<open>JSON.parse\<close> keeps the last of several equal keys.
\<close>

fun command_of :: "inbound \<Rightarrow> string option" where
  "command_of Unparseable = None"
| "command_of (Parsed (JObject kvs)) =
     (case map_of (rev kvs) ''command'' of
        Some (JString s) \<Rightarrow> Some s
      | _ \<Rightarrow> None)"
| "command_of (Parsed _) = None"

text \<open>The \<open>switch\<close> on a copy of the current position; \<open>None\<close> is the \<open>default\<close> case.\<close>

definition apply_command :: "string \<Rightarrow> position \<Rightarrow> position option" where
  "apply_command command p =
     (if command = ''up'' then Some (p\<lparr>py := py p + 1\<rparr>)
      else if command = ''down'' then Some (p\<lparr>py := py p - 1\<rparr>)
      else if command = ''left'' then Some (p\<lparr>px := px p - 1\<rparr>)
      else if command = ''right'' then Some (p\<lparr>px := px p + 1\<rparr>)
      else None)"

text \<open>Lines 145 to 150: open a session when none is open.\<close>

definition open_session :: "ref \<Rightarrow> date \<Rightarrow> date \<Rightarrow> world \<Rightarrow> world" where
  "open_session r now currentTime w =
     (if currentGameId (heap w r) = None
      then logger Info NewGame
             (w\<lparr>heap := (heap w)(r := (heap w r)
                  \<lparr>currentGameId := Some (GameId now (take 4 (clientId (heap w r)))),
                   startPosition := Some (currentPosition (heap w r)),
                   gameStartTime := Some currentTime\<rparr>)\<rparr>)
      else w)"

text \<open>The handler from line 127 up to the \<open>await\<close> of line 194.\<close>

definition on_message ::
  "(nat \<Rightarrow> bool) \<Rightarrow> conn \<Rightarrow> inbound \<Rightarrow> date \<Rightarrow> date \<Rightarrow> world \<Rightarrow> world" where
  "on_message throws ws message now currentTime w =
     (case clients w ws of
        None \<Rightarrow> logger Error UnregisteredMessage w
      | Some r \<Rightarrow>
          (case command_of message of
             None \<Rightarrow>
               (let w1 = logger Error ProcessingError w;
                    (ok, w2) = ws_send throws ws (ErrorReply ProcessingFailed) w1
                in if ok then w2 else logger Error GeneralErrorSendFailed w2)
           | Some command \<Rightarrow>
               (let cId = clientId (heap w r);
                    w1 = logger Info CommandReceived w;
                    w2 = open_session r now currentTime w1
                in case apply_command command (currentPosition (heap w2 r)) of
                     None \<Rightarrow>
                       (let w3 = logger Warn UnrecognisedCommand w2;
                            (ok, w4) = ws_send throws ws
                                         (ErrorReply (UnknownCommand command)) w3
                        in if ok then w4 else logger Error CommandErrorSendFailed w4)
                   | Some newPosition \<Rightarrow>
                       (let w3 = w2\<lparr>heap := (heap w2)(r := (heap w2 r)
                                    \<lparr>currentPosition := newPosition,
                                     lastPosition := Some newPosition,
                                     lastMoveTime := Some now\<rparr>)\<rparr>;
                            movementData =
                              Movement (currentGameId (heap w3 r)) cId command
                                (px newPosition) (py newPosition) currentTime
                        in if \<not> movementsCollection w3
                           then logger Error CollectionNotInitialised w3
                           else w3\<lparr>trace := trace w3 @ [InsertOne movementData],
                                   suspended := (suspended w3)(next_task w3 \<mapsto>
                                     \<lparr>k_ws = ws, k_clientState = r,
                                      k_newPosition = newPosition\<rparr>),
                                   next_task := next_task w3 + 1\<rparr>))))"

text \<open>
  The rest of the handler, lines 195 to 214, run when the promise of \<open>insertOne\<close> has
  settled: \<open>inserted\<close> is \<open>False\<close> when it was rejected.
\<close>

definition after_insert :: "(nat \<Rightarrow> bool) \<Rightarrow> bool \<Rightarrow> nat \<Rightarrow> world \<Rightarrow> world" where
  "after_insert throws inserted task w =
     (case suspended w task of
        None \<Rightarrow> w
      | Some k \<Rightarrow>
          (let ws = k_ws k; r = k_clientState k; newPosition = k_newPosition k;
               w0 = w\<lparr>suspended := (suspended w)(task := None)\<rparr>;
               w1 = (if inserted then w0 else logger Error InsertFailed w0);
               (ok, w2) = ws_send throws ws
                            (PositionUpdate (px newPosition) (py newPosition)) w1;
               w3 = (if ok then logger Info PositionSent w2
                     else logger Error PositionSendFailed w2);
               w4 = clearTimeout (inactivityTimer (heap w3 r)) w3;
               (t, w5) = setTimeout ws w4
           in w5\<lparr>heap := (heap w5)(r := (heap w5 r)\<lparr>inactivityTimer := Some t\<rparr>)\<rparr>))"

subsection \<open>The close and error handlers\<close>

definition on_close :: "conn \<Rightarrow> world \<Rightarrow> world" where
  "on_close ws w =
     (case clients w ws of
        Some r \<Rightarrow>
          (let w1 = logger Info ClientDisconnected w;
               w2 = (if inactivityTimer (heap w1 r) \<noteq> None
                     then clearTimeout (inactivityTimer (heap w1 r)) w1 else w1)
           in w2\<lparr>clients := (clients w2)(ws := None)\<rparr>)
      | None \<Rightarrow> logger Warn UnregisteredDisconnected w)"

definition on_error :: "conn \<Rightarrow> world \<Rightarrow> world" where
  "on_error ws w =
     (let w1 = logger Error SocketFailure w
      in case clients w1 ws of
           Some r \<Rightarrow>
             (let w2 = (if inactivityTimer (heap w1 r) \<noteq> None
                        then clearTimeout (inactivityTimer (heap w1 r)) w1 else w1)
              in w2\<lparr>clients := (clients w2)(ws := None)\<rparr>)
         | None \<Rightarrow> w1)"

subsection \<open>The event loop\<close>

text \<open>
  One event is one run of a handler to its end or to its \<open>await\<close>. \<open>Timeout t\<close> is the
  firing of the pending timer \<open>t\<close>; \<open>InsertSettled k ok\<close> resumes the suspended handler
  \<open>k\<close>.
\<close>

datatype event =
    DbReady
  | Connection conn string
  | Message conn inbound date date
  | InsertSettled nat bool
  | Timeout timer date
  | Close conn
  | SocketError conn

fun step :: "(nat \<Rightarrow> bool) \<Rightarrow> event \<Rightarrow> world \<Rightarrow> world" where
  "step throws DbReady w = connectDB w"
| "step throws (Connection ws cid) w = on_connection throws ws cid w"
| "step throws (Message ws m now currentTime) w = on_message throws ws m now currentTime w"
| "step throws (InsertSettled k ok) w = after_insert throws ok k w"
| "step throws (Timeout t endTime) w = inactivity_timeout throws endTime t w"
| "step throws (Close ws) w = on_close ws w"
| "step throws (SocketError ws) w = on_error ws w"

fun run :: "(nat \<Rightarrow> bool) \<Rightarrow> event list \<Rightarrow> world \<Rightarrow> world" where
  "run throws [] w = w"
| "run throws (e # es) w = run throws es (step throws e w)"

subsection \<open>Observations on a trace\<close>

text \<open>The messages handed to \<open>send\<close> of one socket, and those of all sockets.\<close>

fun sends_to :: "conn \<Rightarrow> action list \<Rightarrow> out_msg list" where
  "sends_to ws [] = []"
| "sends_to ws (Send c m # as) = (if c = ws then m # sends_to ws as else sends_to ws as)"
| "sends_to ws (a # as) = sends_to ws as"

fun is_gameOver :: "out_msg \<Rightarrow> bool" where
  "is_gameOver (GameOver g d s e) = True"
| "is_gameOver m = False"

fun inserts :: "action list \<Rightarrow> movement list" where
  "inserts [] = []"
| "inserts (InsertOne d # as) = d # inserts as"
| "inserts (a # as) = inserts as"

text \<open>The log entries at level \<open>warn\<close> or \<open>error\<close>.\<close>

fun warnings :: "action list \<Rightarrow> log_event list" where
  "warnings [] = []"
| "warnings (Log l e # as) = (if l = Info then warnings as else e # warnings as)"
| "warnings (a # as) = warnings as"

text \<open>The actions a step added to the trace.\<close>

definition emitted :: "world \<Rightarrow> world \<Rightarrow> action list" where
  "emitted w w' = drop (length (trace w)) (trace w')"

fun sends :: "action list \<Rightarrow> (conn \<times> out_msg) list" where
  "sends [] = []"
| "sends (Send c m # as) = (c, m) # sends as"
| "sends (a # as) = sends as"

definition gameOvers :: "conn \<Rightarrow> action list \<Rightarrow> out_msg list" where
  "gameOvers ws tr = filter is_gameOver (sends_to ws tr)"

subsection \<open>Sequences of events\<close>

text \<open>
  The unit steps as the specification words them: up adds \<open>(0, +1)\<close>, down adds
  \<open>(0, -1)\<close>, left adds \<open>(-1, 0)\<close>, right adds \<open>(+1, 0)\<close>.
\<close>

definition unit_step :: "string \<Rightarrow> int \<times> int" where
  "unit_step command =
     (if command = ''up'' then (0, 1)
      else if command = ''down'' then (0, - 1)
      else if command = ''left'' then (- 1, 0)
      else if command = ''right'' then (1, 0)
      else (0, 0))"

text \<open>
  A sequence of accepted commands of one socket with no timeout in between: every event
  is a message of that socket carrying one of the four commands, or the resumption of a
  suspended handler.
\<close>

fun move_events :: "conn \<Rightarrow> event list \<Rightarrow> bool" where
  "move_events ws [] = True"
| "move_events ws (Message c m now ct # es) =
     (c = ws \<and>
      (case command_of m of
         Some k \<Rightarrow> k = ''up'' \<or> k = ''down'' \<or> k = ''left'' \<or> k = ''right''
       | None \<Rightarrow> False) \<and>
      move_events ws es)"
| "move_events ws (InsertSettled k ok # es) = move_events ws es"
| "move_events ws (e # es) = False"

fun commands :: "event list \<Rightarrow> string list" where
  "commands [] = []"
| "commands (Message c m now ct # es) =
     (case command_of m of Some k \<Rightarrow> k # commands es | None \<Rightarrow> commands es)"
| "commands (e # es) = commands es"

text \<open>A socket object is registered once: no later \<open>connection\<close> event carries it.\<close>

fun never_reconnects :: "conn \<Rightarrow> event list \<Rightarrow> bool" where
  "never_reconnects ws [] = True"
| "never_reconnects ws (Connection c cid # es) = (c \<noteq> ws \<and> never_reconnects ws es)"
| "never_reconnects ws (e # es) = never_reconnects ws es"

subsection \<open>Runs and ownership\<close>

text \<open>
  Every \<open>connection\<close> event carries a new socket object: one with no Map entry, and
  named by no pending timer and no suspended handler.
\<close>

definition unknown_socket :: "conn \<Rightarrow> world \<Rightarrow> bool" where
  "unknown_socket ws w =
     (clients w ws = None
      \<and> list_all (\<lambda>t. timers w t \<noteq> Some ws) [0..<next_timer w]
      \<and> list_all (\<lambda>k. case suspended w k of None \<Rightarrow> True | Some c \<Rightarrow> k_ws c \<noteq> ws)
          [0..<next_task w])"

fun admissible :: "(nat \<Rightarrow> bool) \<Rightarrow> event list \<Rightarrow> world \<Rightarrow> bool" where
  "admissible throws [] w = True"
| "admissible throws (Connection ws cid # es) w =
     (unknown_socket ws w \<and> admissible throws es (on_connection throws ws cid w))"
| "admissible throws (e # es) w = admissible throws es (step throws e w)"

text \<open>
  The invariant behind the timer discipline. Each socket has one client-state object,
  \<open>obj ws\<close>, for its whole life: the Map entry and every suspended handler of the
  socket point to it, and a pending timer of the socket is the one that object holds.
\<close>

definition owned :: "(conn \<Rightarrow> ref) \<Rightarrow> world \<Rightarrow> bool" where
  "owned obj w =
     ((\<forall>ws r. clients w ws = Some r \<longrightarrow> obj ws = r \<and> r < next_ref w)
      \<and> (\<forall>k c. suspended w k = Some c \<longrightarrow>
            k < next_task w \<and> obj (k_ws c) = k_clientState c \<and> k_clientState c < next_ref w)
      \<and> (\<forall>t ws. timers w t = Some ws \<longrightarrow>
            t < next_timer w \<and> obj ws < next_ref w \<and>
            inactivityTimer (heap w (obj ws)) = Some t))"

subsection \<open>Example runs\<close>

text \<open>A socket whose \<open>send\<close> never throws.\<close>

definition reliable :: "nat \<Rightarrow> bool" where
  "reliable n = False"

text \<open>The message the client sends: \<open>JSON.stringify({ command })\<close>, parsed.\<close>

definition cmd :: "string \<Rightarrow> inbound" where
  "cmd c = Parsed (JObject [(''command'', JString c)])"

text \<open>Socket 7 connects before \<open>connectDB\<close> has assigned \<open>movementsCollection\<close>.\<close>

definition early_world :: world where
  "early_world = on_connection reliable 7 ''abcdef'' initial_world"

text \<open>The database is connected and socket 7 is open.\<close>

definition connected_world :: world where
  "connected_world = run reliable [DbReady, Connection 7 ''abcdef''] initial_world"

text \<open>Socket 7 moved right at time 0; its session is open and timer 0 is pending.\<close>

definition active_world :: world where
  "active_world =
     run reliable [Message 7 (cmd ''right'') 0 0, InsertSettled 0 True] connected_world"

text \<open>
  At time 9990 socket 7 moves up: the move is applied and \<open>insertOne\<close> is awaited,
  while timer 0 is still pending.
\<close>

definition racing_world :: world where
  "racing_world = step reliable (Message 7 (cmd ''up'') 9990 9990) active_world"

text \<open>Timer 0 fires at time 10000, then the insert settles and the handler resumes.\<close>

definition raced_world :: world where
  "raced_world = run reliable [Timeout 0 10000, InsertSettled 1 True] racing_world"

text \<open>Socket 7 closes while its handler is suspended; the handler then resumes.\<close>

definition orphaned_world :: world where
  "orphaned_world = run reliable [Close 7, InsertSettled 1 True] racing_world"

text \<open>
  A record with no session whose position is not the origin, to show what the message
  handler does with a position it finds.
\<close>

definition carried_world :: world where
  "carried_world =
     connected_world\<lparr>heap := (heap connected_world)
       (0 := (new_client ''abcdef'')\<lparr>currentPosition := \<lparr>px = 3, py = 4\<rparr>\<rparr>)\<rparr>"

section \<open>Properties\<close>

subsection \<open>The runtime operations, field by field\<close>

lemma logger_sel:
  "clients (logger l e w) = clients w"
  "heap (logger l e w) = heap w"
  "next_ref (logger l e w) = next_ref w"
  "timers (logger l e w) = timers w"
  "next_timer (logger l e w) = next_timer w"
  "movementsCollection (logger l e w) = movementsCollection w"
  "suspended (logger l e w) = suspended w"
  "next_task (logger l e w) = next_task w"
  "trace (logger l e w) = trace w @ [Log l e]"
  by (simp_all add: logger_def)

lemma ws_send_sel:
  "fst (ws_send throws ws m w) = (\<not> throws (length (trace w)))"
  "clients (snd (ws_send throws ws m w)) = clients w"
  "heap (snd (ws_send throws ws m w)) = heap w"
  "next_ref (snd (ws_send throws ws m w)) = next_ref w"
  "timers (snd (ws_send throws ws m w)) = timers w"
  "next_timer (snd (ws_send throws ws m w)) = next_timer w"
  "movementsCollection (snd (ws_send throws ws m w)) = movementsCollection w"
  "suspended (snd (ws_send throws ws m w)) = suspended w"
  "next_task (snd (ws_send throws ws m w)) = next_task w"
  "trace (snd (ws_send throws ws m w)) = trace w @ [Send ws m]"
  by (simp_all add: ws_send_def)

lemma clearTimeout_sel:
  "clients (clearTimeout t w) = clients w"
  "heap (clearTimeout t w) = heap w"
  "next_ref (clearTimeout t w) = next_ref w"
  "timers (clearTimeout t w) =
     (case t of None \<Rightarrow> timers w | Some h \<Rightarrow> (timers w)(h := None))"
  "next_timer (clearTimeout t w) = next_timer w"
  "movementsCollection (clearTimeout t w) = movementsCollection w"
  "suspended (clearTimeout t w) = suspended w"
  "next_task (clearTimeout t w) = next_task w"
  "trace (clearTimeout t w) = trace w"
  by (simp_all add: clearTimeout_def split: option.splits)

lemma setTimeout_sel:
  "fst (setTimeout ws w) = next_timer w"
  "clients (snd (setTimeout ws w)) = clients w"
  "heap (snd (setTimeout ws w)) = heap w"
  "next_ref (snd (setTimeout ws w)) = next_ref w"
  "timers (snd (setTimeout ws w)) = (timers w)(next_timer w \<mapsto> ws)"
  "next_timer (snd (setTimeout ws w)) = Suc (next_timer w)"
  "movementsCollection (snd (setTimeout ws w)) = movementsCollection w"
  "suspended (snd (setTimeout ws w)) = suspended w"
  "next_task (snd (setTimeout ws w)) = next_task w"
  "trace (snd (setTimeout ws w)) = trace w"
  by (simp_all add: setTimeout_def)

lemmas runtime_sel = logger_sel ws_send_sel clearTimeout_sel setTimeout_sel

lemma sends_to_append: "sends_to ws (xs @ ys) = sends_to ws xs @ sends_to ws ys"
  by (induction ws xs rule: sends_to.induct) auto

lemma sends_append: "sends (xs @ ys) = sends xs @ sends ys"
  by (induction xs rule: sends.induct) auto

lemma inserts_append: "inserts (xs @ ys) = inserts xs @ inserts ys"
  by (induction xs rule: inserts.induct) auto

lemma warnings_append: "warnings (xs @ ys) = warnings xs @ warnings ys"
  by (induction xs rule: warnings.induct) auto

lemmas trace_append = sends_to_append sends_append inserts_append warnings_append

lemma emitted_append: "trace w' = trace w @ xs \<Longrightarrow> emitted w w' = xs"
  by (simp add: emitted_def)

text \<open>The example runs, evaluated.\<close>

lemmas handler_defs =
  on_connection_def on_message_def after_insert_def inactivity_timeout_def endGame_def
  endGame_report_def endGame_reset_def connectDB_def open_session_def on_close_def
  on_error_def game_distance_def apply_command_def new_client_def logger_def ws_send_def
  clearTimeout_def setTimeout_def reliable_def cmd_def Let_def

lemma early_world_eq:
  "early_world =
     \<lparr>clients = [7 \<mapsto> 0], heap = (\<lambda>r. new_client [])(0 := new_client ''abcdef''),
      next_ref = 1, timers = Map.empty, next_timer = 0, movementsCollection = False,
      suspended = Map.empty, next_task = 0,
      trace = [Log Info NewClient, Send 7 (InitialState 0 0)]\<rparr>"
  by (simp add: early_world_def initial_world_def handler_defs)

lemma connected_world_eq:
  "connected_world =
     \<lparr>clients = [7 \<mapsto> 0], heap = (\<lambda>r. new_client [])(0 := new_client ''abcdef''),
      next_ref = 1, timers = Map.empty, next_timer = 0, movementsCollection = True,
      suspended = Map.empty, next_task = 0,
      trace = [Log Info DbConnected, Log Info NewClient, Send 7 (InitialState 0 0)]\<rparr>"
  by (simp add: connected_world_def initial_world_def handler_defs)

lemma active_world_eq:
  "active_world =
     \<lparr>clients = [7 \<mapsto> 0],
      heap = (\<lambda>r. new_client [])(0 :=
        \<lparr>clientId = ''abcdef'', currentGameId = Some (GameId 0 ''abcd''),
         startPosition = Some \<lparr>px = 0, py = 0\<rparr>, currentPosition = \<lparr>px = 1, py = 0\<rparr>,
         lastPosition = Some \<lparr>px = 1, py = 0\<rparr>, lastMoveTime = Some 0,
         inactivityTimer = Some 0, gameStartTime = Some 0\<rparr>),
      next_ref = 1, timers = [0 \<mapsto> 7], next_timer = 1, movementsCollection = True,
      suspended = Map.empty, next_task = 1,
      trace = [Log Info DbConnected, Log Info NewClient, Send 7 (InitialState 0 0),
        Log Info CommandReceived, Log Info NewGame,
        InsertOne (Movement (Some (GameId 0 ''abcd'')) ''abcdef'' ''right'' 1 0 0),
        Send 7 (PositionUpdate 1 0), Log Info PositionSent]\<rparr>"
  by (simp add: active_world_def connected_world_eq handler_defs)

lemma racing_world_eq:
  "racing_world =
     \<lparr>clients = [7 \<mapsto> 0],
      heap = (\<lambda>r. new_client [])(0 :=
        \<lparr>clientId = ''abcdef'', currentGameId = Some (GameId 0 ''abcd''),
         startPosition = Some \<lparr>px = 0, py = 0\<rparr>, currentPosition = \<lparr>px = 1, py = 1\<rparr>,
         lastPosition = Some \<lparr>px = 1, py = 1\<rparr>, lastMoveTime = Some 9990,
         inactivityTimer = Some 0, gameStartTime = Some 0\<rparr>),
      next_ref = 1, timers = [0 \<mapsto> 7], next_timer = 1, movementsCollection = True,
      suspended = [1 \<mapsto> \<lparr>k_ws = 7, k_clientState = 0, k_newPosition = \<lparr>px = 1, py = 1\<rparr>\<rparr>],
      next_task = 2,
      trace = [Log Info DbConnected, Log Info NewClient, Send 7 (InitialState 0 0),
        Log Info CommandReceived, Log Info NewGame,
        InsertOne (Movement (Some (GameId 0 ''abcd'')) ''abcdef'' ''right'' 1 0 0),
        Send 7 (PositionUpdate 1 0), Log Info PositionSent,
        Log Info CommandReceived,
        InsertOne (Movement (Some (GameId 0 ''abcd'')) ''abcdef'' ''up'' 1 1 9990)]\<rparr>"
  by (simp add: racing_world_def active_world_eq handler_defs)

lemma raced_world_eq:
  "raced_world =
     \<lparr>clients = [7 \<mapsto> 0],
      heap = (\<lambda>r. new_client [])(0 :=
        \<lparr>clientId = ''abcdef'', currentGameId = None, startPosition = None,
         currentPosition = \<lparr>px = 0, py = 0\<rparr>, lastPosition = None, lastMoveTime = None,
         inactivityTimer = Some 1, gameStartTime = None\<rparr>),
      next_ref = 1, timers = [1 \<mapsto> 7], next_timer = 2, movementsCollection = True,
      suspended = Map.empty, next_task = 2,
      trace = trace racing_world @
        [Log Warn InactivityDetected, Log Info GameEndedByInactivity,
         Send 7 (GameOver (GameId 0 ''abcd'') (Sqrt 2) (Some 0) 10000),
         Send 7 (PositionUpdate 0 0), Send 7 (PositionUpdate 1 1), Log Info PositionSent]\<rparr>"
  by (simp add: raced_world_def racing_world_eq handler_defs)

lemma orphaned_world_eq:
  "orphaned_world =
     \<lparr>clients = Map.empty,
      heap = (\<lambda>r. new_client [])(0 :=
        \<lparr>clientId = ''abcdef'', currentGameId = Some (GameId 0 ''abcd''),
         startPosition = Some \<lparr>px = 0, py = 0\<rparr>, currentPosition = \<lparr>px = 1, py = 1\<rparr>,
         lastPosition = Some \<lparr>px = 1, py = 1\<rparr>, lastMoveTime = Some 9990,
         inactivityTimer = Some 1, gameStartTime = Some 0\<rparr>),
      next_ref = 1, timers = [1 \<mapsto> 7], next_timer = 2, movementsCollection = True,
      suspended = Map.empty, next_task = 2,
      trace = trace racing_world @
        [Log Info ClientDisconnected, Send 7 (PositionUpdate 1 1), Log Info PositionSent]\<rparr>"
  by (simp add: orphaned_world_def racing_world_eq handler_defs)

subsection \<open>Malformed messages\<close>

text \<open>
  Claim C9. A message that does not parse, or whose parsed value has no \<open>command\<close> of
  type string, makes the handler of a registered socket send exactly one \<open>error\<close>
  reply (to that socket and to no other) and change nothing but the trace of outside
  calls: the client records, the Map, the pending timers and the suspended handlers
  are the same, no session is opened and no move is inserted.
\<close>

theorem malformed_message_only_error_reply:
  assumes "clients w ws = Some r" and "command_of message = None"
  shows "sends (emitted w (on_message throws ws message now currentTime w)) =
           [(ws, ErrorReply ProcessingFailed)]
       \<and> inserts (emitted w (on_message throws ws message now currentTime w)) = []
       \<and> on_message throws ws message now currentTime w =
           w\<lparr>trace := trace w @ Log Error ProcessingError #
               Send ws (ErrorReply ProcessingFailed) #
               (if throws (Suc (length (trace w)))
                then [Log Error GeneralErrorSendFailed] else [])\<rparr>"
  using assms by (simp add: on_message_def logger_def ws_send_def emitted_def)

theorem malformed_message_witness:
  "clients connected_world 7 = Some 0
   \<and> command_of Unparseable = None
   \<and> command_of (Parsed JNull) = None
   \<and> command_of (Parsed (JString ''up'')) = None
   \<and> command_of (Parsed (JObject [(''command'', JNumber 3)])) = None
   \<and> on_message reliable 7 Unparseable 5 6 connected_world =
      connected_world\<lparr>trace := trace connected_world @
        [Log Error ProcessingError, Send 7 (ErrorReply ProcessingFailed)]\<rparr>"
  using malformed_message_only_error_reply [of connected_world 7 0 Unparseable reliable 5 6]
  by (simp add: connected_world_eq reliable_def)

subsection \<open>Accepted moves while a session is open\<close>

text \<open>
  Claim C10. While a session is open, an accepted move leaves \<open>currentGameId\<close>,
  \<open>startPosition\<close>, \<open>gameStartTime\<close> (and \<open>clientId\<close>) as they were. Up to the
  \<open>await\<close> the handler writes \<open>currentPosition\<close>, \<open>lastPosition\<close> and
  \<open>lastMoveTime\<close> of the socket's record and nothing else on the heap; resumed, it
  writes \<open>inactivityTimer\<close>. When \<open>movementsCollection\<close> is not set the handler ends
  before the \<open>await\<close> and nothing is left suspended.
\<close>

theorem active_move_frame:
  assumes "clients w ws = Some r" and "command_of message = Some command"
    and "apply_command command (currentPosition (heap w r)) = Some p'"
    and "currentGameId (heap w r) = Some g"
  shows "heap (on_message throws ws message now currentTime w) =
           (heap w)(r := (heap w r)\<lparr>currentPosition := p', lastPosition := Some p',
                                      lastMoveTime := Some now\<rparr>)
       \<and> (if movementsCollection w
          then heap (after_insert throws ok (next_task w)
                       (on_message throws ws message now currentTime w)) =
                 (heap w)(r := (heap w r)\<lparr>currentPosition := p', lastPosition := Some p',
                    lastMoveTime := Some now, inactivityTimer := Some (next_timer w)\<rparr>)
          else suspended (on_message throws ws message now currentTime w) = suspended w)"
  using assms
  by (simp add: on_message_def after_insert_def open_session_def runtime_sel Let_def
      case_prod_beta)

theorem active_move_frame_witness:
  "clients active_world 7 = Some 0
   \<and> command_of (cmd ''up'') = Some ''up''
   \<and> apply_command ''up'' (currentPosition (heap active_world 0)) = Some \<lparr>px = 1, py = 1\<rparr>
   \<and> currentGameId (heap active_world 0) = Some (GameId 0 ''abcd'')
   \<and> heap (after_insert reliable True 1 (on_message reliable 7 (cmd ''up'') 50 51 active_world)) 0 =
       \<lparr>clientId = ''abcdef'', currentGameId = Some (GameId 0 ''abcd''),
        startPosition = Some \<lparr>px = 0, py = 0\<rparr>, currentPosition = \<lparr>px = 1, py = 1\<rparr>,
        lastPosition = Some \<lparr>px = 1, py = 1\<rparr>, lastMoveTime = Some 50,
        inactivityTimer = Some 1, gameStartTime = Some 0\<rparr>"
  using active_move_frame [of active_world 7 0 "cmd ''up''" "''up''" "\<lparr>px = 1, py = 1\<rparr>"
      "GameId 0 ''abcd''" reliable 50 51 True]
  by (simp add: active_world_eq cmd_def apply_command_def)

subsection \<open>The inactivity timeout\<close>

text \<open>
  Claim C1. When the timer of a socket with an open session fires, the calls to
  \<open>send\<close> are exactly two, both to that socket: one \<open>gameOver\<close>, built from the
  session fields, then one \<open>positionUpdate\<close> with \<open>x = 0\<close>, \<open>y = 0\<close>. The firing is
  \<open>endGame_reset\<close> after \<open>endGame_report\<close>: when \<open>gameOver\<close> has been sent the heap
  is still the one before the firing, and the fields are cleared afterwards. A second
  \<open>endGame\<close> finds no open session and does nothing, so the session gets no second
  \<open>gameOver\<close>.
\<close>

theorem timeout_emits_one_gameOver_then_reset:
  assumes "timers w t = Some ws" and "clients w ws = Some r"
    and "currentGameId (heap w r) = Some g"
  shows "sends (emitted w (inactivity_timeout throws endTime t w)) =
           [(ws, GameOver g (fst (game_distance (heap w r))) (gameStartTime (heap w r)) endTime),
            (ws, PositionUpdate 0 0)]
       \<and> inactivity_timeout throws endTime t w =
           endGame_reset throws ws r
             (endGame_report throws endTime ws r g
               (logger Warn InactivityDetected (w\<lparr>timers := (timers w)(t := None)\<rparr>)))
       \<and> heap (endGame_report throws endTime ws r g
               (logger Warn InactivityDetected (w\<lparr>timers := (timers w)(t := None)\<rparr>))) = heap w
       \<and> sends (emitted w (endGame_report throws endTime ws r g
               (logger Warn InactivityDetected (w\<lparr>timers := (timers w)(t := None)\<rparr>)))) =
           [(ws, GameOver g (fst (game_distance (heap w r))) (gameStartTime (heap w r)) endTime)]
       \<and> heap (inactivity_timeout throws endTime t w) =
           (heap w)(r := (heap w r)\<lparr>currentGameId := None, startPosition := None,
              lastPosition := None, currentPosition := \<lparr>px = 0, py = 0\<rparr>,
              lastMoveTime := None, inactivityTimer := None, gameStartTime := None\<rparr>)
       \<and> endGame throws' endTime' ws (inactivity_timeout throws endTime t w) =
           inactivity_timeout throws endTime t w"
  using assms
  by (simp add: inactivity_timeout_def endGame_def endGame_report_def endGame_reset_def
      runtime_sel Let_def case_prod_beta emitted_def trace_append)

theorem timeout_emits_one_gameOver_witness:
  "timers active_world 0 = Some 7
   \<and> clients active_world 7 = Some 0
   \<and> currentGameId (heap active_world 0) = Some (GameId 0 ''abcd'')
   \<and> sends (emitted active_world (inactivity_timeout reliable 10000 0 active_world)) =
       [(7, GameOver (GameId 0 ''abcd'') (Sqrt 1) (Some 0) 10000), (7, PositionUpdate 0 0)]
   \<and> heap (inactivity_timeout reliable 10000 0 active_world) 0 = new_client ''abcdef''"
  using timeout_emits_one_gameOver_then_reset
    [of active_world 0 7 0 "GameId 0 ''abcd''" reliable 10000 reliable 10000]
  by (simp add: active_world_eq handler_defs emitted_def)

text \<open>
  Claim C7, as stated, fails: the callback of the timer logs a warning before it calls
  \<open>endGame\<close>, also when the session is closed (\<open>raced_world\<close>) or the record is
  removed (\<open>orphaned_world\<close>).
\<close>

theorem stale_timeout_logs_warning:
  "timers raced_world 1 = Some 7
   \<and> clients raced_world 7 = Some 0
   \<and> currentGameId (heap raced_world 0) = None
   \<and> warnings (emitted raced_world (inactivity_timeout reliable 20000 1 raced_world)) =
       [InactivityDetected]
   \<and> timers orphaned_world 1 = Some 7
   \<and> clients orphaned_world 7 = None
   \<and> warnings (emitted orphaned_world (inactivity_timeout reliable 20000 1 orphaned_world)) =
       [InactivityDetected]"
  by (simp add: raced_world_eq orphaned_world_eq inactivity_timeout_def endGame_def
      logger_def emitted_def)

text \<open>
  Claim C7, amended. When the timer fires for a socket whose session is closed or whose
  record is removed, no message is sent and no record, Map entry or other timer
  changes: \<open>endGame\<close> returns at once and logs nothing. The only effects are that the
  timer is no longer pending and that the callback has logged its one warning.
\<close>

theorem stale_timeout_only_logs_warning:
  assumes "timers w t = Some ws"
    and "clients w ws = None \<or> (\<exists>r. clients w ws = Some r \<and> currentGameId (heap w r) = None)"
  shows "inactivity_timeout throws endTime t w =
           w\<lparr>timers := (timers w)(t := None),
             trace := trace w @ [Log Warn InactivityDetected]\<rparr>
       \<and> sends (emitted w (inactivity_timeout throws endTime t w)) = []
       \<and> warnings (emitted w (inactivity_timeout throws endTime t w)) = [InactivityDetected]
       \<and> endGame throws endTime ws w = w"
  using assms
  by (auto simp add: inactivity_timeout_def endGame_def logger_def emitted_def)

theorem stale_timeout_only_logs_warning_witness:
  "timers raced_world 1 = Some 7
   \<and> clients raced_world 7 = Some 0 \<and> currentGameId (heap raced_world 0) = None
   \<and> inactivity_timeout reliable 20000 1 raced_world =
       raced_world\<lparr>timers := Map.empty,
         trace := trace raced_world @ [Log Warn InactivityDetected]\<rparr>
   \<and> timers orphaned_world 1 = Some 7
   \<and> clients orphaned_world 7 = None
   \<and> inactivity_timeout reliable 20000 1 orphaned_world =
       orphaned_world\<lparr>timers := Map.empty,
         trace := trace orphaned_world @ [Log Warn InactivityDetected]\<rparr>"
  using stale_timeout_only_logs_warning [of raced_world 1 7 reliable 20000]
    stale_timeout_only_logs_warning [of orphaned_world 1 7 reliable 20000]
  by (simp add: raced_world_eq orphaned_world_eq)

subsection \<open>Unrecognised commands\<close>

text \<open>
  With a session open, a command other than the four is answered by one \<open>error\<close>
  reply and changes nothing but the trace.
\<close>

lemma unknown_command_when_active:
  assumes "clients w ws = Some r" and "command_of message = Some command"
    and "apply_command command (currentPosition (heap w r)) = None"
    and "currentGameId (heap w r) = Some g"
  shows "on_message throws ws message now currentTime w =
           w\<lparr>trace := trace w @ Log Info CommandReceived # Log Warn UnrecognisedCommand #
               Send ws (ErrorReply (UnknownCommand command)) #
               (if throws (Suc (Suc (length (trace w))))
                then [Log Error CommandErrorSendFailed] else [])\<rparr>"
  using assms
  by (simp add: on_message_def open_session_def logger_def ws_send_def)

text \<open>
  With no session open, the session is opened (lines 145 to 150) before the
  \<open>switch\<close> rejects the command: three fields of the record change.
\<close>

lemma unknown_command_when_idle:
  assumes "clients w ws = Some r" and "command_of message = Some command"
    and "apply_command command (currentPosition (heap w r)) = None"
    and "currentGameId (heap w r) = None"
  shows "on_message throws ws message now currentTime w =
           w\<lparr>heap := (heap w)(r := (heap w r)
                 \<lparr>currentGameId := Some (GameId now (take 4 (clientId (heap w r)))),
                  startPosition := Some (currentPosition (heap w r)),
                  gameStartTime := Some currentTime\<rparr>),
             trace := trace w @ Log Info CommandReceived # Log Info NewGame #
               Log Warn UnrecognisedCommand #
               Send ws (ErrorReply (UnknownCommand command)) #
               (if throws (Suc (Suc (Suc (length (trace w)))))
                then [Log Error CommandErrorSendFailed] else [])\<rparr>"
  using assms
  by (simp add: on_message_def open_session_def logger_def ws_send_def)

text \<open>
  Claim C5 at a concrete input. Socket 7 has just connected and has no session; the
  message \<open>{"command": "jump"}\<close> gets its one \<open>error\<close> reply, no timer and no
  insert, but the record now holds an open session: \<open>currentGameId\<close>,
  \<open>startPosition\<close> and \<open>gameStartTime\<close> are set.
\<close>

theorem unknown_command_while_idle_opens_session:
  "clients connected_world 7 = Some 0
   \<and> command_of (cmd ''jump'') = Some ''jump''
   \<and> heap connected_world 0 = new_client ''abcdef''
   \<and> sends (emitted connected_world (on_message reliable 7 (cmd ''jump'') 5 6 connected_world)) =
       [(7, ErrorReply (UnknownCommand ''jump''))]
   \<and> inserts (emitted connected_world (on_message reliable 7 (cmd ''jump'') 5 6 connected_world)) = []
   \<and> timers (on_message reliable 7 (cmd ''jump'') 5 6 connected_world) = Map.empty
   \<and> heap (on_message reliable 7 (cmd ''jump'') 5 6 connected_world) 0 =
       (new_client ''abcdef'')
         \<lparr>currentGameId := Some (GameId 5 ''abcd''),
          startPosition := Some \<lparr>px = 0, py = 0\<rparr>,
          gameStartTime := Some 6\<rparr>"
  by (simp add: connected_world_eq handler_defs emitted_def)

subsection \<open>Failures of the persistence step\<close>

text \<open>
  When \<open>insertOne\<close> is rejected, the resumed handler logs the failure, still sends
  \<open>positionUpdate\<close> and still cancels the stored timer and arms a new one.
\<close>

lemma rejected_insert_still_replies_and_rearms:
  assumes "suspended w k = Some c"
  shows "sends (emitted w (after_insert throws False k w)) =
           [(k_ws c, PositionUpdate (px (k_newPosition c)) (py (k_newPosition c)))]
       \<and> timers (after_insert throws False k w) =
           (case inactivityTimer (heap w (k_clientState c)) of
              None \<Rightarrow> timers w
            | Some t \<Rightarrow> (timers w)(t := None))(next_timer w \<mapsto> k_ws c)
       \<and> inactivityTimer (heap (after_insert throws False k w) (k_clientState c)) =
           Some (next_timer w)"
  using assms
  by (simp add: after_insert_def runtime_sel Let_def case_prod_beta emitted_def trace_append
      split: option.splits)

text \<open>
  Claim C6 at a concrete input. Socket 7 sends \<open>up\<close> while \<open>movementsCollection\<close> is
  not assigned: the move is applied to the record, the handler logs an error and
  returns (line 192). Nothing is sent, nothing is left suspended that could send
  later, and no timer is armed.
\<close>

theorem move_without_collection_gets_no_reply:
  "clients early_world 7 = Some 0
   \<and> movementsCollection early_world = False
   \<and> command_of (cmd ''up'') = Some ''up''
   \<and> currentPosition (heap (on_message reliable 7 (cmd ''up'') 5 6 early_world) 0) =
       \<lparr>px = 0, py = 1\<rparr>
   \<and> sends (emitted early_world (on_message reliable 7 (cmd ''up'') 5 6 early_world)) = []
   \<and> warnings (emitted early_world (on_message reliable 7 (cmd ''up'') 5 6 early_world)) =
       [CollectionNotInitialised]
   \<and> suspended (on_message reliable 7 (cmd ''up'') 5 6 early_world) = Map.empty
   \<and> timers (on_message reliable 7 (cmd ''up'') 5 6 early_world) = Map.empty
   \<and> inactivityTimer (heap (on_message reliable 7 (cmd ''up'') 5 6 early_world) 0) = None"
  by (simp add: early_world_eq handler_defs emitted_def)

subsection \<open>Positions\<close>

lemma open_session_position:
  "currentPosition (heap (open_session r now ct w) r') = currentPosition (heap w r')"
  by (simp add: open_session_def logger_def)

lemma on_message_clients: "clients (on_message throws ws m now ct w) = clients w"
  by (simp add: on_message_def open_session_def runtime_sel Let_def case_prod_beta
      split: option.splits)

lemma on_message_moves:
  assumes "clients w ws = Some r" and "command_of m = Some c"
    and "apply_command c (currentPosition (heap w r)) = Some p'"
  shows "currentPosition (heap (on_message throws ws m now ct w) r) = p'"
  using assms
  by (simp add: on_message_def open_session_def runtime_sel Let_def case_prod_beta)

lemma after_insert_clients: "clients (after_insert throws ok k w) = clients w"
  by (simp add: after_insert_def runtime_sel Let_def case_prod_beta split: option.splits)

lemma after_insert_position:
  "currentPosition (heap (after_insert throws ok k w) r) = currentPosition (heap w r)"
  by (simp add: after_insert_def runtime_sel Let_def case_prod_beta split: option.splits)

lemma apply_command_unit_step:
  assumes "c = ''up'' \<or> c = ''down'' \<or> c = ''left'' \<or> c = ''right''"
  shows "apply_command c p =
           Some \<lparr>px = px p + fst (unit_step c), py = py p + snd (unit_step c)\<rparr>"
  using assms by (auto simp add: apply_command_def unit_step_def)

text \<open>
  Claim C3. After any sequence of accepted commands of one socket, with no timeout,
  close or other event in between, the current position of the socket's record is the
  position before the sequence plus the sum of the unit steps of the commands.
\<close>

theorem position_is_sum_of_unit_steps:
  assumes "clients w ws = Some r" and "move_events ws es"
  shows "px (currentPosition (heap (run throws es w) r)) =
           px (currentPosition (heap w r)) + sum_list (map (fst \<circ> unit_step) (commands es))
       \<and> py (currentPosition (heap (run throws es w) r)) =
           py (currentPosition (heap w r)) + sum_list (map (snd \<circ> unit_step) (commands es))"
  using assms
proof (induction es arbitrary: w)
  case Nil
  then show ?case by simp
next
  case (Cons e es)
  show ?case
  proof (cases e)
    case (Message c m now ct)
    with Cons.prems obtain k where k: "c = ws" "command_of m = Some k"
      "k = ''up'' \<or> k = ''down'' \<or> k = ''left'' \<or> k = ''right''" "move_events ws es"
      by (auto split: option.splits)
    let ?w = "on_message throws ws m now ct w"
    have pos: "currentPosition (heap ?w r) =
        \<lparr>px = px (currentPosition (heap w r)) + fst (unit_step k),
         py = py (currentPosition (heap w r)) + snd (unit_step k)\<rparr>"
      using on_message_moves [OF Cons.prems(1) k(2) apply_command_unit_step [OF k(3)]] .
    have "clients ?w ws = Some r"
      using Cons.prems(1) by (simp add: on_message_clients)
    from Cons.IH [OF this k(4)] pos show ?thesis
      using Message k(1,2) by simp
  next
    case (InsertSettled k ok)
    let ?w = "after_insert throws ok k w"
    have "clients ?w ws = Some r"
      using Cons.prems(1) by (simp add: after_insert_clients)
    moreover have "move_events ws es"
      using Cons.prems(2) InsertSettled by simp
    ultimately show ?thesis
      using Cons.IH [of ?w] InsertSettled by (simp add: after_insert_position)
  qed (use Cons.prems in simp_all)
qed

theorem position_is_sum_of_unit_steps_witness:
  "clients connected_world 7 = Some 0
   \<and> move_events 7 [Message 7 (cmd ''right'') 0 0, InsertSettled 0 True,
         Message 7 (cmd ''right'') 1 1, InsertSettled 1 False, Message 7 (cmd ''up'') 2 2]
   \<and> currentPosition (heap connected_world 0) = \<lparr>px = 0, py = 0\<rparr>
   \<and> px (currentPosition (heap (run reliable [Message 7 (cmd ''right'') 0 0,
         InsertSettled 0 True, Message 7 (cmd ''right'') 1 1, InsertSettled 1 False,
         Message 7 (cmd ''up'') 2 2] connected_world) 0)) = 2
   \<and> py (currentPosition (heap (run reliable [Message 7 (cmd ''right'') 0 0,
         InsertSettled 0 True, Message 7 (cmd ''right'') 1 1, InsertSettled 1 False,
         Message 7 (cmd ''up'') 2 2] connected_world) 0)) = 1"
  using position_is_sum_of_unit_steps [of connected_world 7 0
      "[Message 7 (cmd ''right'') 0 0, InsertSettled 0 True,
        Message 7 (cmd ''right'') 1 1, InsertSettled 1 False, Message 7 (cmd ''up'') 2 2]"
      reliable]
  by (simp add: connected_world_eq new_client_def cmd_def unit_step_def)

text \<open>
  An event other than a timeout leaves the position of every existing record as it
  was, or moves it by the step of a command.
\<close>

lemma step_position:
  assumes "\<forall>t d. e \<noteq> Timeout t d" and "r < next_ref w"
  shows "currentPosition (heap (step throws e w) r) = currentPosition (heap w r)
       \<or> (\<exists>c. apply_command c (currentPosition (heap w r)) =
                Some (currentPosition (heap (step throws e w) r)))"
proof (cases e)
  case (Message c m now ct)
  show ?thesis
  proof (cases "clients w c")
    case None
    then show ?thesis using Message by (simp add: on_message_def logger_def)
  next
    case (Some r0)
    show ?thesis
    proof (cases "command_of m")
      case None
      then show ?thesis using Message Some
        by (simp add: on_message_def runtime_sel Let_def case_prod_beta)
    next
      case (Some k)
      show ?thesis
      proof (cases "apply_command k (currentPosition (heap w r0))")
        case None
        then show ?thesis using Message \<open>clients w c = Some r0\<close> Some
          by (simp add: on_message_def runtime_sel Let_def case_prod_beta
              open_session_position)
      next
        case (Some p')
        have "currentPosition (heap (on_message throws c m now ct w) r0) = p'"
          using on_message_moves [OF \<open>clients w c = Some r0\<close> \<open>command_of m = Some k\<close> Some] .
        moreover have "r \<noteq> r0 \<Longrightarrow>
            currentPosition (heap (on_message throws c m now ct w) r) =
            currentPosition (heap w r)"
          using \<open>clients w c = Some r0\<close> \<open>command_of m = Some k\<close> Some
          by (simp add: on_message_def runtime_sel Let_def case_prod_beta
              open_session_position open_session_def)
        ultimately show ?thesis using Message Some by (cases "r = r0") auto
      qed
    qed
  qed
next
  case (Connection c cid)
  then show ?thesis using assms(2)
    by (simp add: on_connection_def runtime_sel Let_def case_prod_beta)
next
  case (InsertSettled k ok)
  then show ?thesis by (simp add: after_insert_position)
next
  case DbReady
  then show ?thesis by (simp add: connectDB_def runtime_sel)
next
  case (Close c)
  then show ?thesis
    by (simp add: on_close_def runtime_sel Let_def split: option.splits)
next
  case (SocketError c)
  then show ?thesis
    by (simp add: on_error_def runtime_sel Let_def split: option.splits)
next
  case (Timeout t d)
  then show ?thesis using assms(1) by simp
qed

lemma timeout_resets_position:
  assumes "timers w t = Some ws" and "clients w ws = Some r"
    and "currentGameId (heap w r) = Some g"
  shows "currentPosition (heap (inactivity_timeout throws d t w) r) = \<lparr>px = 0, py = 0\<rparr>"
  using assms
  by (simp add: inactivity_timeout_def endGame_def endGame_report_def endGame_reset_def
      runtime_sel Let_def case_prod_beta)

text \<open>
  Claim C4. The first accepted command of a socket with no session stores a copy of the
  record's current position as \<open>startPosition\<close> and applies the move to that position:
  opening the session does not touch \<open>currentPosition\<close>. No event but the timeout
  resets a position: every other event leaves the position of each existing record
  unchanged or moves it by one command's step, and the timeout of an open session sets
  it to \<open>(0, 0)\<close>.
\<close>

theorem session_start_keeps_position:
  "(clients w ws = Some r \<and> currentGameId (heap w r) = None \<and>
    command_of message = Some command \<and>
    apply_command command (currentPosition (heap w r)) = Some p' \<longrightarrow>
      startPosition (heap (on_message throws ws message now currentTime w) r) =
        Some (currentPosition (heap w r))
    \<and> currentPosition (heap (on_message throws ws message now currentTime w) r) = p')
   \<and> currentPosition (heap (open_session r now currentTime w) r) = currentPosition (heap w r)
   \<and> ((\<forall>t d. e \<noteq> Timeout t d) \<and> r' < next_ref w \<longrightarrow>
        currentPosition (heap (step throws e w) r') = currentPosition (heap w r')
      \<or> (\<exists>c. apply_command c (currentPosition (heap w r')) =
               Some (currentPosition (heap (step throws e w) r'))))
   \<and> (timers w t = Some ws \<and> clients w ws = Some r \<and> currentGameId (heap w r) = Some g \<longrightarrow>
        currentPosition (heap (step throws (Timeout t d) w) r) = \<lparr>px = 0, py = 0\<rparr>)"
proof (intro conjI impI)
  assume h: "clients w ws = Some r \<and> currentGameId (heap w r) = None \<and>
    command_of message = Some command \<and>
    apply_command command (currentPosition (heap w r)) = Some p'"
  then show "startPosition (heap (on_message throws ws message now currentTime w) r) =
      Some (currentPosition (heap w r))"
    by (simp add: on_message_def open_session_def runtime_sel Let_def case_prod_beta)
  from h show "currentPosition (heap (on_message throws ws message now currentTime w) r) = p'"
    by (simp add: on_message_moves)
next
  show "currentPosition (heap (open_session r now currentTime w) r) =
      currentPosition (heap w r)"
    by (rule open_session_position)
next
  assume "(\<forall>t d. e \<noteq> Timeout t d) \<and> r' < next_ref w"
  then show "currentPosition (heap (step throws e w) r') = currentPosition (heap w r')
      \<or> (\<exists>c. apply_command c (currentPosition (heap w r')) =
               Some (currentPosition (heap (step throws e w) r')))"
    using step_position [of e r' w throws] by blast
next
  assume "timers w t = Some ws \<and> clients w ws = Some r \<and> currentGameId (heap w r) = Some g"
  then show "currentPosition (heap (step throws (Timeout t d) w) r) = \<lparr>px = 0, py = 0\<rparr>"
    by (simp add: timeout_resets_position)
qed

theorem session_start_keeps_position_witness:
  "clients carried_world 7 = Some 0
   \<and> currentGameId (heap carried_world 0) = None
   \<and> currentPosition (heap carried_world 0) = \<lparr>px = 3, py = 4\<rparr>
   \<and> command_of (cmd ''up'') = Some ''up''
   \<and> apply_command ''up'' \<lparr>px = 3, py = 4\<rparr> = Some \<lparr>px = 3, py = 5\<rparr>
   \<and> startPosition (heap (on_message reliable 7 (cmd ''up'') 5 6 carried_world) 0) =
       Some \<lparr>px = 3, py = 4\<rparr>
   \<and> currentPosition (heap (on_message reliable 7 (cmd ''up'') 5 6 carried_world) 0) =
       \<lparr>px = 3, py = 5\<rparr>
   \<and> 0 < next_ref carried_world
   \<and> timers active_world 0 = Some 7
   \<and> clients active_world 7 = Some 0
   \<and> currentGameId (heap active_world 0) = Some (GameId 0 ''abcd'')
   \<and> currentPosition (heap active_world 0) = \<lparr>px = 1, py = 0\<rparr>
   \<and> currentPosition (heap (step reliable (Timeout 0 10000) active_world) 0) =
       \<lparr>px = 0, py = 0\<rparr>"
  using session_start_keeps_position [of carried_world 7 0 "cmd ''up''" "''up''"
      "\<lparr>px = 3, py = 5\<rparr>" reliable 5 6 "Message 7 (cmd ''up'') 5 6" 0 0
      "GameId 0 ''abcd''" 10000]
    session_start_keeps_position [of active_world 7 0 "cmd ''up''" "''up''"
      "\<lparr>px = 1, py = 1\<rparr>" reliable 5 6 "Message 7 (cmd ''up'') 5 6" 0 0
      "GameId 0 ''abcd''" 10000]
  by (simp add: carried_world_def connected_world_eq active_world_eq handler_defs)

subsection \<open>One deadline per connection\<close>

text \<open>Every handler keeps the invariant \<open>owned\<close>.\<close>

lemma owned_initial: "owned obj initial_world"
  by (simp add: owned_def initial_world_def)

lemma owned_connectDB: "owned obj w \<Longrightarrow> owned obj (connectDB w)"
  by (simp add: owned_def connectDB_def runtime_sel)

lemma owned_on_close: "owned obj w \<Longrightarrow> owned obj (on_close ws w)"
  unfolding owned_def
  by (auto simp add: on_close_def runtime_sel Let_def split: option.splits)

lemma owned_on_error: "owned obj w \<Longrightarrow> owned obj (on_error ws w)"
  unfolding owned_def
  by (auto simp add: on_error_def runtime_sel Let_def split: option.splits)

lemma owned_on_message: "owned obj w \<Longrightarrow> owned obj (on_message throws ws m now ct w)"
  unfolding owned_def
  by (auto simp add: on_message_def open_session_def runtime_sel Let_def case_prod_beta
      less_Suc_eq split: option.splits)


lemma owned_after_insert: "owned obj w \<Longrightarrow> owned obj (after_insert throws ok k w)"
proof (cases "suspended w k")
  case None
  assume "owned obj w"
  with None show ?thesis by (simp add: after_insert_def)
next
  case (Some c)
  assume inv: "owned obj w"
  let ?r = "k_clientState c" and ?ws = "k_ws c"
  let ?w' = "after_insert throws ok k w"
  from inv Some have own: "obj ?ws = ?r" "?r < next_ref w"
    by (auto simp add: owned_def)
  have sel: "clients ?w' = clients w" "next_ref ?w' = next_ref w"
    "next_task ?w' = next_task w" "suspended ?w' = (suspended w)(k := None)"
    "next_timer ?w' = Suc (next_timer w)"
    "timers ?w' = (case inactivityTimer (heap w ?r) of None \<Rightarrow> timers w
                   | Some t \<Rightarrow> (timers w)(t := None))(next_timer w \<mapsto> ?ws)"
    "heap ?w' = (heap w)(?r := (heap w ?r)\<lparr>inactivityTimer := Some (next_timer w)\<rparr>)"
    using Some
    by (simp_all add: after_insert_def runtime_sel Let_def case_prod_beta
        split: option.splits)
  have "\<forall>ws r. clients ?w' ws = Some r \<longrightarrow> obj ws = r \<and> r < next_ref ?w'"
    using inv by (simp add: sel owned_def)
  moreover have "\<forall>j d. suspended ?w' j = Some d \<longrightarrow>
      j < next_task ?w' \<and> obj (k_ws d) = k_clientState d \<and> k_clientState d < next_ref ?w'"
    using inv by (simp add: sel owned_def)
  moreover have "\<forall>t ws. timers ?w' t = Some ws \<longrightarrow>
      t < next_timer ?w' \<and> obj ws < next_ref ?w' \<and>
      inactivityTimer (heap ?w' (obj ws)) = Some t"
  proof (intro allI impI)
    fix t ws
    assume p: "timers ?w' t = Some ws"
    show "t < next_timer ?w' \<and> obj ws < next_ref ?w' \<and>
      inactivityTimer (heap ?w' (obj ws)) = Some t"
    proof (cases "t = next_timer w")
      case True
      with p have "ws = ?ws" by (simp add: sel)
      with True own show ?thesis by (simp add: sel)
    next
      case False
      with p have old: "timers w t = Some ws"
        and ne: "inactivityTimer (heap w ?r) \<noteq> Some t"
        by (auto simp add: sel split: option.splits if_splits)
      from inv old have o: "t < next_timer w" "obj ws < next_ref w"
        "inactivityTimer (heap w (obj ws)) = Some t"
        by (auto simp add: owned_def)
      with ne have "obj ws \<noteq> ?r" by auto
      with o show ?thesis by (simp add: sel)
    qed
  qed
  ultimately show ?thesis by (simp add: owned_def)
qed

lemma owned_inactivity_timeout:
  assumes inv: "owned obj w"
  shows "owned obj (inactivity_timeout throws d t w)"
proof -
  let ?w' = "inactivity_timeout throws d t w"
  have sel: "clients ?w' = clients w" "next_ref ?w' = next_ref w"
    "next_task ?w' = next_task w" "suspended ?w' = suspended w"
    "next_timer ?w' = next_timer w"
    by (simp_all add: inactivity_timeout_def endGame_def endGame_report_def
        endGame_reset_def runtime_sel Let_def case_prod_beta split: option.splits)
  have tm: "\<And>u ws. timers ?w' u = Some ws \<Longrightarrow>
      timers w u = Some ws \<and> heap ?w' (obj ws) = heap w (obj ws)"
  proof -
    fix u ws
    assume p: "timers ?w' u = Some ws"
    show "timers w u = Some ws \<and> heap ?w' (obj ws) = heap w (obj ws)"
    proof (cases "timers w t")
      case None
      with p show ?thesis by (simp add: inactivity_timeout_def)
    next
      case (Some ws0)
      show ?thesis
      proof (cases "clients w ws0")
        case None
        with p Some show ?thesis
          by (auto simp add: inactivity_timeout_def endGame_def runtime_sel
              split: if_splits)
      next
        case (Some r)
        note r = this
        show ?thesis
        proof (cases "currentGameId (heap w r)")
          case None
          with p r \<open>timers w t = Some ws0\<close> show ?thesis
            by (auto simp add: inactivity_timeout_def endGame_def runtime_sel
                split: if_splits)
        next
          case (Some g)
          with p r \<open>timers w t = Some ws0\<close>
          have old: "timers w u = Some ws"
            and ne: "inactivityTimer (heap w r) \<noteq> Some u"
            and hp: "heap ?w' = (heap w)(r := (heap w r)
                 \<lparr>currentGameId := None, startPosition := None, lastPosition := None,
                  currentPosition := \<lparr>px = 0, py = 0\<rparr>, lastMoveTime := None,
                  inactivityTimer := None, gameStartTime := None\<rparr>)"
            by (auto simp add: inactivity_timeout_def endGame_def endGame_report_def
                endGame_reset_def runtime_sel Let_def case_prod_beta
                split: option.splits if_splits)
          from inv old have "inactivityTimer (heap w (obj ws)) = Some u"
            by (auto simp add: owned_def)
          with ne have "obj ws \<noteq> r" by auto
          with old hp show ?thesis by simp
        qed
      qed
    qed
  qed
  show ?thesis
    unfolding owned_def
  proof (intro conjI allI impI)
    fix u ws
    assume "timers ?w' u = Some ws"
    from tm [OF this] have "timers w u = Some ws"
      and "heap ?w' (obj ws) = heap w (obj ws)" by simp_all
    with inv show "u < next_timer ?w'" "obj ws < next_ref ?w'"
      "inactivityTimer (heap ?w' (obj ws)) = Some u"
      by (auto simp add: owned_def sel)
  qed (use inv in \<open>auto simp add: owned_def sel\<close>)
qed

lemma owned_on_connection:
  assumes inv: "owned obj w" and new: "unknown_socket ws w"
  shows "owned (obj(ws := next_ref w)) (on_connection throws ws cid w)"
proof -
  let ?w' = "on_connection throws ws cid w"
  have sel: "clients ?w' = (clients w)(ws \<mapsto> next_ref w)"
    "next_ref ?w' = Suc (next_ref w)"
    "next_task ?w' = next_task w" "suspended ?w' = suspended w"
    "next_timer ?w' = next_timer w" "timers ?w' = timers w"
    "heap ?w' = (heap w)(next_ref w := new_client cid)"
    by (simp_all add: on_connection_def runtime_sel Let_def case_prod_beta)
  have t: "timers w u \<noteq> Some ws" for u
  proof
    assume a: "timers w u = Some ws"
    with inv have "u < next_timer w" by (auto simp add: owned_def)
    with new a show False by (auto simp add: unknown_socket_def list_all_iff)
  qed
  have s: "k_ws c \<noteq> ws" if "suspended w k = Some c" for k c
  proof -
    from inv that have "k < next_task w" by (auto simp add: owned_def)
    with new that show ?thesis
      by (auto simp add: unknown_socket_def list_all_iff split: option.splits)
  qed
  show ?thesis
    unfolding owned_def
  proof (intro conjI allI impI)
    fix u ws'
    assume p: "timers ?w' u = Some ws'"
    then have old: "timers w u = Some ws'" by (simp add: sel)
    with t have ne: "ws' \<noteq> ws" by auto
    from inv old have o: "u < next_timer w" "obj ws' < next_ref w"
      "inactivityTimer (heap w (obj ws')) = Some u"
      by (auto simp add: owned_def)
    with ne show "u < next_timer ?w'" "(obj(ws := next_ref w)) ws' < next_ref ?w'"
      "inactivityTimer (heap ?w' ((obj(ws := next_ref w)) ws')) = Some u"
      by (simp_all add: sel less_Suc_eq)
  next
    fix k c
    assume p: "suspended ?w' k = Some c"
    then have old: "suspended w k = Some c" by (simp add: sel)
    from s [OF old] inv old
    show "k < next_task ?w'" "(obj(ws := next_ref w)) (k_ws c) = k_clientState c"
      "k_clientState c < next_ref ?w'"
      by (auto simp add: owned_def sel less_Suc_eq)
  next
    fix ws' r
    assume p: "clients ?w' ws' = Some r"
    with inv show "(obj(ws := next_ref w)) ws' = r" "r < next_ref ?w'"
      by (auto simp add: owned_def sel less_Suc_eq split: if_splits)
  qed
qed


text \<open>What the invariant gives.\<close>

lemma owned_timer:
  "owned obj w \<Longrightarrow> timers w t = Some ws \<Longrightarrow> inactivityTimer (heap w (obj ws)) = Some t"
  unfolding owned_def by blast

lemma owned_client: "owned obj w \<Longrightarrow> clients w ws = Some r \<Longrightarrow> obj ws = r"
  unfolding owned_def by blast

lemma owned_run:
  assumes "admissible throws es w" and "owned obj w"
  shows "\<exists>obj'. owned obj' (run throws es w)"
  using assms
proof (induction es arbitrary: w obj)
  case Nil
  then show ?case by auto
next
  case (Cons e es)
  show ?case
  proof (cases e)
    case (Connection ws cid)
    with Cons.prems have "unknown_socket ws w"
      and "admissible throws es (on_connection throws ws cid w)" by simp_all
    with Cons.IH [OF this(2) owned_on_connection [OF Cons.prems(2) this(1)]]
    show ?thesis using Connection by simp
  next
    case DbReady
    with Cons.prems have "admissible throws es (connectDB w)" by simp
    from Cons.IH [OF this owned_connectDB [OF Cons.prems(2)]]
    show ?thesis using DbReady by simp
  next
    case (Message ws m now ct)
    with Cons.prems have "admissible throws es (on_message throws ws m now ct w)" by simp
    from Cons.IH [OF this owned_on_message [OF Cons.prems(2)]]
    show ?thesis using Message by simp
  next
    case (InsertSettled k ok)
    with Cons.prems have "admissible throws es (after_insert throws ok k w)" by simp
    from Cons.IH [OF this owned_after_insert [OF Cons.prems(2)]]
    show ?thesis using InsertSettled by simp
  next
    case (Timeout t d)
    with Cons.prems have "admissible throws es (inactivity_timeout throws d t w)" by simp
    from Cons.IH [OF this owned_inactivity_timeout [OF Cons.prems(2)]]
    show ?thesis using Timeout by simp
  next
    case (Close ws)
    with Cons.prems have "admissible throws es (on_close ws w)" by simp
    from Cons.IH [OF this owned_on_close [OF Cons.prems(2)]]
    show ?thesis using Close by simp
  next
    case (SocketError ws)
    with Cons.prems have "admissible throws es (on_error ws w)" by simp
    from Cons.IH [OF this owned_on_error [OF Cons.prems(2)]]
    show ?thesis using SocketError by simp
  qed
qed

text \<open>
  At most one inactivity timer is pending per socket, in every world a run reaches,
  whatever the interleaving of handlers.
\<close>

lemma at_most_one_deadline:
  assumes "admissible throws es initial_world"
    and "timers (run throws es initial_world) t = Some ws"
    and "timers (run throws es initial_world) t' = Some ws"
  shows "t = t'"
proof -
  from owned_run [OF assms(1) owned_initial] obtain obj
    where "owned obj (run throws es initial_world)" by blast
  from owned_timer [OF this assms(2)] owned_timer [OF this assms(3)]
  show ?thesis by simp
qed

text \<open>After its \<open>close\<close> or \<open>error\<close> handler has run, a socket has no pending timer.\<close>

lemma close_leaves_no_deadline:
  assumes "admissible throws es initial_world"
    and "clients (run throws es initial_world) ws = Some r"
    and "e = Close ws \<or> e = SocketError ws"
  shows "timers (step throws e (run throws es initial_world)) t \<noteq> Some ws"
proof
  let ?w = "run throws es initial_world"
  assume a: "timers (step throws e ?w) t = Some ws"
  from owned_run [OF assms(1) owned_initial] obtain obj
    where inv: "owned obj ?w" by blast
  from a assms(2,3) have old: "timers ?w t = Some ws"
    and ne: "inactivityTimer (heap ?w r) \<noteq> Some t"
    by (auto simp add: on_close_def on_error_def runtime_sel Let_def
        split: option.splits if_splits)
  from owned_timer [OF inv old] owned_client [OF inv assms(2)]
  have "inactivityTimer (heap ?w r) = Some t" by simp
  with ne show False by simp
qed

text \<open>
  Timer handles are never reused: a timer that was cancelled or has fired stays out of
  the pending set, and its callback does not run again.
\<close>

lemma step_cancelled:
  assumes "timers w t = None" and "t < next_timer w"
  shows "timers (step throws e w) t = None \<and> t < next_timer (step throws e w)"
proof (cases e)
  case (InsertSettled k ok)
  then show ?thesis using assms
    by (auto simp add: after_insert_def runtime_sel Let_def case_prod_beta
        split: option.splits)
next
  case (Timeout u d)
  then show ?thesis using assms
    by (auto simp add: inactivity_timeout_def endGame_def endGame_report_def
        endGame_reset_def runtime_sel Let_def case_prod_beta split: option.splits)
next
  case (Message ws m now ct)
  then show ?thesis using assms
    by (auto simp add: on_message_def open_session_def runtime_sel Let_def case_prod_beta
        split: option.splits)
next
  case (Connection ws cid)
  then show ?thesis using assms
    by (simp add: on_connection_def runtime_sel Let_def case_prod_beta)
next
  case DbReady
  then show ?thesis using assms by (simp add: connectDB_def runtime_sel)
next
  case (Close ws)
  then show ?thesis using assms
    by (auto simp add: on_close_def runtime_sel Let_def split: option.splits)
next
  case (SocketError ws)
  then show ?thesis using assms
    by (auto simp add: on_error_def runtime_sel Let_def split: option.splits)
qed

lemma cancelled_deadline_never_fires:
  assumes "timers w t = None" and "t < next_timer w"
  shows "timers (run throws es w) t = None"
    and "inactivity_timeout throws d t (run throws es w) = run throws es w"
proof -
  have "timers (run throws es w) t = None \<and> t < next_timer (run throws es w)"
    using assms
  proof (induction es arbitrary: w)
    case Nil
    then show ?case by simp
  next
    case (Cons e es)
    from step_cancelled [OF Cons.prems, of throws e]
    have "timers (step throws e w) t = None" "t < next_timer (step throws e w)"
      by simp_all
    from Cons.IH [OF this] show ?case by simp
  qed
  then show "timers (run throws es w) t = None"
    and "inactivity_timeout throws d t (run throws es w) = run throws es w"
    by (simp_all add: inactivity_timeout_def)
qed

text \<open>The run that leads to \<open>racing_world\<close>.\<close>

lemma racing_world_run:
  "racing_world = run reliable [DbReady, Connection 7 ''abcdef'', Message 7 (cmd ''right'') 0 0,
     InsertSettled 0 True, Message 7 (cmd ''up'') 9990 9990] initial_world"
  by (simp add: racing_world_def active_world_def connected_world_def)

lemma racing_admissible:
  "admissible reliable [DbReady, Connection 7 ''abcdef'', Message 7 (cmd ''right'') 0 0,
     InsertSettled 0 True, Message 7 (cmd ''up'') 9990 9990] initial_world"
  by (simp add: unknown_socket_def connectDB_def logger_def initial_world_def)

subsection \<open>Closing a connection\<close>

lemma gameOvers_append: "gameOvers ws (xs @ ys) = gameOvers ws xs @ gameOvers ws ys"
  by (simp add: gameOvers_def sends_to_append)

lemma gameOvers_simps:
  "gameOvers ws [] = []"
  "gameOvers ws (Log l e # as) = gameOvers ws as"
  "gameOvers ws (InsertOne d # as) = gameOvers ws as"
  "gameOvers ws (Send c m # as) =
     (if c = ws \<and> is_gameOver m then m # gameOvers ws as else gameOvers ws as)"
  by (simp_all add: gameOvers_def)

text \<open>
  While a socket has no record in the Map, no event but its own registration gives it
  one, and no event sends it a \<open>gameOver\<close>.
\<close>

lemma step_unregistered:
  assumes "clients w ws = None" and "\<forall>cid. e \<noteq> Connection ws cid"
  shows "clients (step throws e w) ws = None \<and>
         gameOvers ws (trace (step throws e w)) = gameOvers ws (trace w)"
proof (cases e)
  case (Timeout t d)
  then show ?thesis using assms
    by (auto simp add: inactivity_timeout_def endGame_def endGame_report_def
        endGame_reset_def runtime_sel Let_def case_prod_beta gameOvers_append
        gameOvers_simps split: option.splits)
next
  case (Connection c cid)
  then show ?thesis using assms
    by (auto simp add: on_connection_def runtime_sel Let_def case_prod_beta
        gameOvers_append gameOvers_simps)
next
  case (Message c m now ct)
  then show ?thesis using assms
    by (auto simp add: on_message_def open_session_def runtime_sel Let_def case_prod_beta
        gameOvers_append gameOvers_simps split: option.splits)
next
  case (InsertSettled k ok)
  then show ?thesis using assms
    by (auto simp add: after_insert_def runtime_sel Let_def case_prod_beta
        gameOvers_append gameOvers_simps split: option.splits)
next
  case DbReady
  then show ?thesis using assms
    by (simp add: connectDB_def runtime_sel gameOvers_append gameOvers_simps)
next
  case (Close c)
  then show ?thesis using assms
    by (auto simp add: on_close_def runtime_sel Let_def gameOvers_append gameOvers_simps
        split: option.splits)
next
  case (SocketError c)
  then show ?thesis using assms
    by (auto simp add: on_error_def runtime_sel Let_def gameOvers_append gameOvers_simps
        split: option.splits)
qed

lemma run_unregistered:
  assumes "clients w ws = None" and "never_reconnects ws es"
  shows "gameOvers ws (trace (run throws es w)) = gameOvers ws (trace w)"
  using assms
proof (induction es arbitrary: w)
  case Nil
  then show ?case by simp
next
  case (Cons e es)
  have ne: "\<forall>cid. e \<noteq> Connection ws cid" and rest: "never_reconnects ws es"
    using Cons.prems(2) by (cases e; auto)+
  from step_unregistered [OF Cons.prems(1) ne, of throws]
  have "clients (step throws e w) ws = None"
    and g: "gameOvers ws (trace (step throws e w)) = gameOvers ws (trace w)"
    by simp_all
  from Cons.IH [OF this(1) rest] g show ?case by simp
qed

text \<open>
  Claim C8. The \<open>close\<close> and \<open>error\<close> handlers of a registered socket send nothing,
  remove the record from the Map and cancel the timer the record holds; in a world
  reached by a run that is the only timer the socket has, so none is pending
  afterwards. From then on, whatever events follow (the socket object is not registered
  again), the trace gains no \<open>gameOver\<close> for that socket: its list of \<open>gameOver\<close>
  messages stays what it was before the close.
\<close>

theorem close_emits_no_gameOver:
  assumes "clients w ws = Some r" and "e = Close ws \<or> e = SocketError ws"
    and "never_reconnects ws es"
  shows "sends (emitted w (step throws e w)) = []
       \<and> clients (step throws e w) ws = None
       \<and> timers (step throws e w) =
           (case inactivityTimer (heap w r) of
              None \<Rightarrow> timers w
            | Some t \<Rightarrow> (timers w)(t := None))
       \<and> (admissible throws es0 initial_world \<and> w = run throws es0 initial_world \<longrightarrow>
            (\<forall>t. timers (step throws e w) t \<noteq> Some ws))
       \<and> gameOvers ws (trace (run throws es (step throws e w))) = gameOvers ws (trace w)"
proof -
  have a: "sends (emitted w (step throws e w)) = []"
    and b: "clients (step throws e w) ws = None"
    and c: "timers (step throws e w) =
           (case inactivityTimer (heap w r) of
              None \<Rightarrow> timers w
            | Some t \<Rightarrow> (timers w)(t := None))"
    and d: "gameOvers ws (trace (step throws e w)) = gameOvers ws (trace w)"
    using assms(1,2)
    by (auto simp add: on_close_def on_error_def runtime_sel Let_def emitted_def
        gameOvers_append gameOvers_simps split: option.splits)
  have e: "admissible throws es0 initial_world \<and> w = run throws es0 initial_world \<longrightarrow>
      (\<forall>t. timers (step throws e w) t \<noteq> Some ws)"
    using close_leaves_no_deadline [of throws es0 ws r e] assms(1,2) by blast
  from run_unregistered [OF b assms(3), of throws] d a b c e show ?thesis by simp
qed

theorem close_emits_no_gameOver_witness:
  "clients racing_world 7 = Some 0
   \<and> currentGameId (heap racing_world 0) = Some (GameId 0 ''abcd'')
   \<and> timers racing_world 0 = Some 7
   \<and> never_reconnects 7
       [InsertSettled 1 True, Timeout 0 10000, Timeout 1 20000, Connection 8 ''other'']
   \<and> admissible reliable [DbReady, Connection 7 ''abcdef'', Message 7 (cmd ''right'') 0 0,
        InsertSettled 0 True, Message 7 (cmd ''up'') 9990 9990] initial_world
   \<and> racing_world = run reliable [DbReady, Connection 7 ''abcdef'',
        Message 7 (cmd ''right'') 0 0, InsertSettled 0 True,
        Message 7 (cmd ''up'') 9990 9990] initial_world
   \<and> sends (emitted racing_world (step reliable (Close 7) racing_world)) = []
   \<and> clients (step reliable (Close 7) racing_world) 7 = None
   \<and> timers (step reliable (Close 7) racing_world) = Map.empty
   \<and> gameOvers 7 (trace (run reliable
        [InsertSettled 1 True, Timeout 0 10000, Timeout 1 20000, Connection 8 ''other'']
        (step reliable (Close 7) racing_world))) = []
   \<and> gameOvers 7 (trace (run reliable
        [InsertSettled 1 True, Timeout 0 10000, Timeout 1 20000, Connection 8 ''other'']
        (step reliable (SocketError 7) racing_world))) = []"
proof -
  note close_emits_no_gameOver [of racing_world 7 0 "Close 7"
      "[InsertSettled 1 True, Timeout 0 10000, Timeout 1 20000, Connection 8 ''other'']"
      reliable "[DbReady, Connection 7 ''abcdef'', Message 7 (cmd ''right'') 0 0,
        InsertSettled 0 True, Message 7 (cmd ''up'') 9990 9990]"]
    close_emits_no_gameOver [of racing_world 7 0 "SocketError 7"
      "[InsertSettled 1 True, Timeout 0 10000, Timeout 1 20000, Connection 8 ''other'']"
      reliable "[DbReady, Connection 7 ''abcdef'', Message 7 (cmd ''right'') 0 0,
        InsertSettled 0 True, Message 7 (cmd ''up'') 9990 9990]"]
  moreover have "gameOvers 7 (trace racing_world) = []"
    "clients racing_world 7 = Some 0"
    "currentGameId (heap racing_world 0) = Some (GameId 0 ''abcd'')"
    "timers racing_world 0 = Some 7"
    "timers (step reliable (Close 7) racing_world) = Map.empty"
    by (simp_all add: racing_world_eq gameOvers_simps on_close_def logger_def
        clearTimeout_def)
  ultimately show ?thesis
    using racing_admissible racing_world_run by simp
qed

subsection \<open>Rearming the deadline\<close>

text \<open>
  The resumed handler cancels the timer its record holds and arms a fresh one, which
  the record then holds.
\<close>

lemma rearm_cancels_then_schedules:
  assumes "suspended w k = Some c"
  shows "timers (after_insert throws ok k w) =
           (case inactivityTimer (heap w (k_clientState c)) of
              None \<Rightarrow> timers w
            | Some t \<Rightarrow> (timers w)(t := None))(next_timer w \<mapsto> k_ws c)
       \<and> inactivityTimer (heap (after_insert throws ok k w) (k_clientState c)) =
           Some (next_timer w)"
  using assms
  by (simp add: after_insert_def runtime_sel Let_def case_prod_beta split: option.splits)

text \<open>
  Claim C2 at a concrete input. Timer 0, armed by the move at time 0, is pending in
  \<open>active_world\<close>. The command \<open>up\<close> arrives at time 9990, before the deadline, and
  is accepted: in \<open>racing_world\<close> the position is \<open>(1, 1)\<close> and the handler waits for
  \<open>insertOne\<close>; timer 0 is still pending, since \<open>clearTimeout\<close> comes after the
  \<open>await\<close>. Timer 0 fires at time 10000 and ends the session: \<open>gameOver\<close> is sent
  after the later move. The handler then resumes, reports position \<open>(1, 1)\<close> for a
  record that is back at \<open>(0, 0)\<close>, and arms timer 1 for a socket with no session.
  What the code does keep: a socket never has two pending timers
  (\<open>at_most_one_deadline\<close>), a cancelled timer never fires
  (\<open>cancelled_deadline_never_fires\<close>), and the resumed handler cancels before it arms
  (\<open>rearm_cancels_then_schedules\<close>).
\<close>

theorem deadline_fires_while_handler_is_suspended:
  "timers active_world 0 = Some 7
   \<and> racing_world = step reliable (Message 7 (cmd ''up'') 9990 9990) active_world
   \<and> currentPosition (heap racing_world 0) = \<lparr>px = 1, py = 1\<rparr>
   \<and> lastMoveTime (heap racing_world 0) = Some 9990
   \<and> timers racing_world 0 = Some 7
   \<and> sends (emitted racing_world (step reliable (Timeout 0 10000) racing_world)) =
       [(7, GameOver (GameId 0 ''abcd'') (Sqrt 2) (Some 0) 10000), (7, PositionUpdate 0 0)]
   \<and> raced_world = run reliable [Timeout 0 10000, InsertSettled 1 True] racing_world
   \<and> sends (emitted racing_world raced_world) =
       [(7, GameOver (GameId 0 ''abcd'') (Sqrt 2) (Some 0) 10000), (7, PositionUpdate 0 0),
        (7, PositionUpdate 1 1)]
   \<and> currentGameId (heap raced_world 0) = None
   \<and> currentPosition (heap raced_world 0) = \<lparr>px = 0, py = 0\<rparr>
   \<and> timers raced_world 1 = Some 7"
proof -
  have "sends (emitted racing_world (step reliable (Timeout 0 10000) racing_world)) =
      [(7, GameOver (GameId 0 ''abcd'') (Sqrt 2) (Some 0) 10000), (7, PositionUpdate 0 0)]"
    by (simp add: racing_world_eq handler_defs emitted_def)
  moreover have "sends (emitted racing_world raced_world) =
      [(7, GameOver (GameId 0 ''abcd'') (Sqrt 2) (Some 0) 10000), (7, PositionUpdate 0 0),
       (7, PositionUpdate 1 1)]"
    by (simp add: raced_world_eq emitted_def)
  moreover have "timers active_world 0 = Some 7"
    by (simp add: active_world_eq)
  moreover have "currentPosition (heap racing_world 0) = \<lparr>px = 1, py = 1\<rparr>"
    "lastMoveTime (heap racing_world 0) = Some 9990" "timers racing_world 0 = Some 7"
    by (simp_all add: racing_world_eq)
  moreover have "currentGameId (heap raced_world 0) = None"
    "currentPosition (heap raced_world 0) = \<lparr>px = 0, py = 0\<rparr>" "timers raced_world 1 = Some 7"
    by (simp_all add: raced_world_eq)
  ultimately show ?thesis
    by (simp add: racing_world_def raced_world_def)
qed

end
